theory Spec2Isabelle
  imports Complex_Main "HOL-Library.Multiset" "HOL-Library.Sublist"
begin

section \<open>The branch-and-bound enumeration of zstates (blore/inference/zstatespy.py)\<close>

text \<open>
  The module has one function, \<^verbatim>\<open>create\<close>. A zstate is a Python list of column
  positions, the collection \<^verbatim>\<open>zstates\<close> a list of zstates. Python integers are
  unbounded, so \<^verbatim>\<open>nsnps\<close>, \<^verbatim>\<open>cmax\<close> and the items are \<open>int\<close>; positions inside
  a list are \<open>nat\<close>. Scores are \<open>real\<close>: the model computes sums, products and
  comparisons exactly, so it says nothing about the rounding of float64.

  The scoring function \<^verbatim>\<open>quasi_laplace.margloglik_zcomps\<close> is an external collaborator.
  The hyperparameters \<^verbatim>\<open>pi, mu, sig2, vmin, mureg, sigreg2, precll\<close> are only
  forwarded to it, so the model takes the scorer with its hyperparameters applied, a
  function from the collection to the list of scores. The number of calls made to it
  is counted in the result.

  Loading \<^verbatim>\<open>lib/zstates.so\<close> (lines 37 to 45) is taken to succeed. The helper works
  on \<^verbatim>\<open>int32\<close> buffers; the items are below \<^verbatim>\<open>nsnps\<close>, and no arithmetic is
  done on them, so no wrap-around is modelled.
\<close>

type_synonym zstate = "int list"

type_synonym scorer = "zstate list \<Rightarrow> real list"

datatype py_error = IndexError | ValueError

datatype exit_kind = Covariate | NormReached | StopCheck | EmptySelection

datatype outcome = Returned exit_kind "zstate list" | Raised py_error

record run =
  result :: outcome
  calls :: nat

text \<open>The variables the while loop carries; \<^verbatim>\<open>norm\<close> is passed beside them.\<close>

record loop_state =
  zstates :: "zstate list"
  oldk :: "zstate list"
  prob :: "real list"
  probsum :: real
  old_probsum :: real
  ncalls :: nat

datatype step = Continue loop_state | Break exit_kind | Throw py_error

subsection \<open>Slicing, sorting and cumulative sums of numpy\<close>

text \<open>
  \<^verbatim>\<open>posterior[-n:]\<close>: the last \<open>n\<close> entries, all of them when \<open>n\<close> exceeds the
  length, and all of them too when \<open>n = 0\<close>, since \<^verbatim>\<open>-0\<close> is \<^verbatim>\<open>0\<close>.
\<close>

definition slice_last :: "nat \<Rightarrow> 'a list \<Rightarrow> 'a list" where
  "slice_last n xs = (if n = 0 then xs else drop (length xs - n) xs)"

text \<open>
  \<^verbatim>\<open>np.argsort(prob)[::-1]\<close>: the positions of \<open>prob\<close> in ascending order of
  their score, reversed. numpy does not fix the order of positions of equal score; the
  model takes the order of a stable sort. The sorted scores, their prefix sums and the
  number of selected positions do not depend on that choice.
\<close>

definition argsort_desc :: "real list \<Rightarrow> nat list" where
  "argsort_desc p = rev (sort_key (\<lambda>i. p ! i) [0..<length p])"

fun cumsum_from :: "real \<Rightarrow> real list \<Rightarrow> real list" where
  "cumsum_from acc [] = []"
| "cumsum_from acc (x # xs) = (acc + x) # cumsum_from (acc + x) xs"

definition cumsum :: "real list \<Rightarrow> real list" where
  "cumsum xs = cumsum_from 0 xs"

text \<open>\<^verbatim>\<open>np.where(cum > targ)[0]\<close>: the positions whose entry exceeds \<open>targ\<close>.\<close>

definition where_gt :: "real list \<Rightarrow> real \<Rightarrow> nat list" where
  "where_gt cum targ = filter (\<lambda>i. targ < cum ! i) [0..<length cum]"

text \<open>\<^verbatim>\<open>prob[sort]\<close>: the scores in the order of \<open>argsort_desc\<close>.\<close>

definition sorted_scores :: "real list \<Rightarrow> real list" where
  "sorted_scores p = map (\<lambda>i. p ! i) (argsort_desc p)"

subsection \<open>Selection of the leaders (lines 69 to 83)\<close>

text \<open>\<open>None\<close> is the \<^verbatim>\<open>break\<close> of line 78, \<open>Some sel\<close> the sorted selection.\<close>

definition select :: "real list \<Rightarrow> real \<Rightarrow> real \<Rightarrow> nat list option" where
  "select p psum target =
     (let srt = argsort_desc p;
          cum = cumsum (map (\<lambda>i. p ! i) srt);
          targ = psum * target;
          nsel = where_gt cum targ
      in if length nsel = 0 then None
         else (let nsel1 = hd nsel + 1;
                   sel = take nsel1 srt
               in Some (sort sel)))"

text \<open>
  \<^verbatim>\<open>[oldk[sel[i]] for i in range(nsel)]\<close>: a position beyond the end of
  \<open>oldk\<close> raises IndexError. The positions are never negative.
\<close>

definition leaders :: "zstate list \<Rightarrow> nat list \<Rightarrow> py_error + zstate list" where
  "leaders ok sel =
     (if list_all (\<lambda>i. i < length ok) sel then Inr (map (\<lambda>i. ok ! i) sel)
      else Inl IndexError)"

subsection \<open>The expansion helper\<close>

text \<open>
  Modelled from the spec: the candidates of one leader in the expansion step of the
  native routine \<^verbatim>\<open>create_zstates\<close>, which is not among the source files. For every
  item of the universe not already in the leader, in ascending order, the candidate is
  the leader with the item added, in canonical (sorted) form.
\<close>

definition candidates :: "int \<Rightarrow> zstate \<Rightarrow> zstate list" where
  "candidates nsnps leader =
     map (\<lambda>item. insort item leader)
         (filter (\<lambda>item. item \<notin> set leader) [0..nsnps - 1])"

text \<open>
  Modelled from the spec: the deduplication of the expansion step of the same routine.
  A candidate is emitted at its first generation and skipped afterwards.
\<close>

fun emit_new :: "zstate list \<Rightarrow> zstate list \<Rightarrow> zstate list" where
  "emit_new seen [] = []"
| "emit_new seen (c # cs) =
     (if c \<in> set seen then emit_new seen cs else c # emit_new (c # seen) cs)"

text \<open>
  Modelled from the spec: the native routine \<^verbatim>\<open>create_zstates\<close> of
  \<^verbatim>\<open>lib/zstates.so\<close>, which \<^verbatim>\<open>create\<close> loads and calls, is not among the source
  files. The specification's expansion step: the candidates of every leader, in the
  order of the leaders, each distinct candidate emitted once. The flat integer buffers
  of the call are abstracted to lists of rows.
\<close>

definition create_zstates :: "int \<Rightarrow> zstate list \<Rightarrow> zstate list" where
  "create_zstates nsnps leadk = emit_new [] (concat (map (candidates nsnps) leadk))"

text \<open>
  Lines 102 to 108. The two numpy calls that can fail are kept: \<^verbatim>\<open>reshape\<close> raises
  ValueError unless every leader has \<open>norm - 1\<close> entries, and \<^verbatim>\<open>np.zeros\<close> raises
  ValueError for a negative size. Every row of the result is sorted by Python.
\<close>

definition expand :: "int \<Rightarrow> int \<Rightarrow> zstate list \<Rightarrow> py_error + zstate list" where
  "expand nsnps nrm leadk =
     (let nsel = int (length leadk) in
      if \<not> list_all (\<lambda>l. int (length l) = nrm - 1) leadk then Inl ValueError
      else (let maxnewsize = nsel * (nsnps - nrm + 1) * nrm in
            if maxnewsize < 0 then Inl ValueError
            else Inr (map sort (create_zstates nsnps leadk))))"

subsection \<open>The loop (lines 63 to 118)\<close>

text \<open>
  One pass through the body of the while loop, entered with \<open>norm < cmax\<close>; \<open>nrm\<close>
  is the value of \<^verbatim>\<open>norm\<close> at the top of the iteration.
\<close>

definition loop_body :: "scorer \<Rightarrow> int \<Rightarrow> real \<Rightarrow> int \<Rightarrow> loop_state \<Rightarrow> step" where
  "loop_body score nsnps target nrm st =
     (if probsum st < (1 - target) * old_probsum st then Break StopCheck
      else (case select (prob st) (probsum st) target of
              None \<Rightarrow> Break EmptySelection
            | Some sel \<Rightarrow>
               (case leaders (oldk st) sel of
                  Inl e \<Rightarrow> Throw e
                | Inr leadk \<Rightarrow>
                   (case expand nsnps (nrm + 1) leadk of
                      Inl e \<Rightarrow> Throw e
                    | Inr newk \<Rightarrow>
                       (let zs = zstates st @ newk;
                            posterior = score zs;
                            pr = slice_last (length newk) posterior
                        in Continue \<lparr>zstates = zs, oldk = newk, prob = pr,
                                     probsum = sum_list pr, old_probsum = probsum st,
                                     ncalls = ncalls st + 1\<rparr>)))))"

function iterate :: "scorer \<Rightarrow> int \<Rightarrow> int \<Rightarrow> real \<Rightarrow> int \<Rightarrow> loop_state \<Rightarrow> run" where
  "iterate score nsnps cmax target nrm st =
     (if nrm < cmax then
        (case loop_body score nsnps target nrm st of
           Continue st' \<Rightarrow> iterate score nsnps cmax target (nrm + 1) st'
         | Break ek \<Rightarrow> \<lparr>result = Returned ek (zstates st), calls = ncalls st\<rparr>
         | Throw e \<Rightarrow> \<lparr>result = Raised e, calls = ncalls st\<rparr>)
      else \<lparr>result = Returned NormReached (zstates st), calls = ncalls st\<rparr>)"
  by pat_completeness auto
termination
  by (relation "measure (\<lambda>(score, nsnps, cmax, target, nrm, st). nat (cmax - nrm))") auto

subsection \<open>create\<close>

definition singletons :: "int \<Rightarrow> zstate list" where
  "singletons nsnps = map (\<lambda>i. [i]) [0..nsnps - 1]"

text \<open>
  With \<open>cmax \<le> 1\<close> neither the block of line 53 nor the loop is entered. With
  \<open>cmax > 1\<close> the scorer is called once before the loop, and \<^verbatim>\<open>posterior[0]\<close>
  raises IndexError on an empty answer.
\<close>

definition create :: "scorer \<Rightarrow> int \<Rightarrow> int \<Rightarrow> real \<Rightarrow> bool \<Rightarrow> run" where
  "create score nsnps cmax target is_covariate =
     (if \<not> is_covariate then
        (let newk = singletons nsnps;
             zs = [[]] @ newk
         in if cmax > 1 then
              (let posterior = score zs;
                   pr = slice_last (length newk) posterior
               in case posterior of
                    [] \<Rightarrow> \<lparr>result = Raised IndexError, calls = 1\<rparr>
                  | p0 # _ \<Rightarrow>
                      iterate score nsnps cmax target 1
                        \<lparr>zstates = zs, oldk = newk, prob = pr, probsum = sum_list pr,
                         old_probsum = p0, ncalls = 1\<rparr>)
            else \<lparr>result = Returned NormReached zs, calls = 0\<rparr>)
      else \<lparr>result = Returned Covariate [[0..nsnps - 1]], calls = 0\<rparr>)"

subsection \<open>Scorer stubs of the examples\<close>

text \<open>Deterministic scorers, one score per zstate, for the concrete runs below.\<close>

definition one_stub :: scorer where
  "one_stub zs = map (\<lambda>z. 1) zs"




subsection \<open>Canonical levels\<close>

text \<open>
  A level of norm \<open>k\<close> over \<open>nsnps\<close> items: every zstate is strictly increasing,
  drawn from \<open>[0, nsnps)\<close>, and has \<open>k\<close> items.
\<close>

definition wf_level :: "int \<Rightarrow> nat \<Rightarrow> zstate list \<Rightarrow> bool" where
  "wf_level nsnps k lv \<longleftrightarrow>
     (\<forall>z\<in>set lv. sorted_wrt (<) z \<and> set z \<subseteq> {0..<nsnps} \<and> length z = k)"

subsection \<open>The states of a run\<close>

text \<open>
  The loop states at the top of the successive iterations of \<open>iterate\<close>, the first
  being the state the loop is entered with. The level generated by an iteration is the
  \<open>oldk\<close> of the next state.
\<close>

function trace :: "scorer \<Rightarrow> int \<Rightarrow> int \<Rightarrow> real \<Rightarrow> int \<Rightarrow> loop_state \<Rightarrow> loop_state list" where
  "trace score nsnps cmax target nrm st =
     st # (if nrm < cmax then
             (case loop_body score nsnps target nrm st of
                Continue st' \<Rightarrow> trace score nsnps cmax target (nrm + 1) st'
              | Break ek \<Rightarrow> []
              | Throw e \<Rightarrow> [])
           else [])"
  by pat_completeness auto
termination
  by (relation "measure (\<lambda>(score, nsnps, cmax, target, nrm, st). nat (cmax - nrm))") auto


section \<open>Properties\<close>

declare iterate.simps [simp del]

subsection \<open>Sorting, cumulative sums and the selection\<close>

lemma mset_argsort_desc: "mset (argsort_desc p) = mset [0..<length p]"
  by (simp add: argsort_desc_def)


lemma length_argsort_desc: "length (argsort_desc p) = length p"
  using mset_eq_length [OF mset_argsort_desc, of p] by simp



lemma mset_sorted_scores: "mset (sorted_scores p) = mset p"
proof -
  have "mset (sorted_scores p) = image_mset (\<lambda>i. p ! i) (mset (argsort_desc p))"
    by (simp add: sorted_scores_def)
  also have "\<dots> = mset (map (\<lambda>i. p ! i) [0..<length p])"
    by (simp add: mset_argsort_desc)
  also have "\<dots> = mset p"
    by (simp add: map_nth)
  finally show ?thesis .
qed

lemma length_sorted_scores: "length (sorted_scores p) = length p"
  by (simp add: sorted_scores_def length_argsort_desc)

lemma sum_list_sorted_scores: "sum_list (sorted_scores p) = sum_list p"
  using mset_sorted_scores [of p] by (metis sum_mset_sum_list)

lemma length_cumsum_from: "length (cumsum_from a xs) = length xs"
  by (induction xs arbitrary: a) auto

lemma nth_cumsum_from:
  "i < length xs \<Longrightarrow> cumsum_from a xs ! i = a + sum_list (take (Suc i) xs)"
proof (induction xs arbitrary: a i)
  case Nil
  then show ?case by simp
next
  case (Cons x xs)
  then show ?case by (cases i) (auto simp: add.assoc)
qed

lemma length_cumsum: "length (cumsum xs) = length xs"
  by (simp add: cumsum_def length_cumsum_from)

lemma nth_cumsum: "i < length xs \<Longrightarrow> cumsum xs ! i = sum_list (take (Suc i) xs)"
  by (simp add: cumsum_def nth_cumsum_from)

lemma filter_upt_empty: "filter P [0..<n] = [] \<longleftrightarrow> (\<forall>i<n. \<not> P i)"
  by (auto simp: filter_empty_conv)


lemma select_None_iff:
  "select p psum target = None \<longleftrightarrow>
     (\<forall>k. 0 < k \<and> k \<le> length p \<longrightarrow> \<not> psum * target < sum_list (take k (sorted_scores p)))"
proof -
  let ?ss = "sorted_scores p"
  have "select p psum target = None \<longleftrightarrow> where_gt (cumsum ?ss) (psum * target) = []"
    by (simp add: select_def Let_def sorted_scores_def)
  also have "\<dots> \<longleftrightarrow> (\<forall>i<length p. \<not> psum * target < sum_list (take (Suc i) ?ss))"
    by (simp add: where_gt_def filter_upt_empty length_cumsum length_sorted_scores nth_cumsum)
  also have "\<dots> \<longleftrightarrow> (\<forall>k. 0 < k \<and> k \<le> length p \<longrightarrow> \<not> psum * target < sum_list (take k ?ss))"
  proof
    assume a: "\<forall>i<length p. \<not> psum * target < sum_list (take (Suc i) ?ss)"
    show "\<forall>k. 0 < k \<and> k \<le> length p \<longrightarrow> \<not> psum * target < sum_list (take k ?ss)"
    proof (intro allI impI)
      fix k assume "0 < k \<and> k \<le> length p"
      then obtain i where "k = Suc i" "i < length p" by (cases k) auto
      then show "\<not> psum * target < sum_list (take k ?ss)" using a by blast
    qed
  next
    assume "\<forall>k. 0 < k \<and> k \<le> length p \<longrightarrow> \<not> psum * target < sum_list (take k ?ss)"
    then show "\<forall>i<length p. \<not> psum * target < sum_list (take (Suc i) ?ss)"
      by (metis Suc_leI zero_less_Suc)
  qed
  finally show ?thesis .
qed


subsection \<open>The loop, one iteration at a time\<close>



lemma create_enters_loop:
  "1 < cmax \<Longrightarrow> score ([] # singletons nsnps) = p0 # ps \<Longrightarrow>
   create score nsnps cmax target False =
     iterate score nsnps cmax target 1
       \<lparr>zstates = [] # singletons nsnps, oldk = singletons nsnps,
        prob = slice_last (length (singletons nsnps)) (p0 # ps),
        probsum = sum_list (slice_last (length (singletons nsnps)) (p0 # ps)),
        old_probsum = p0, ncalls = 1\<rparr>"
  by (simp add: create_def Let_def)

subsection \<open>The covariate locus\<close>

text \<open>
  C6. For a covariate locus there is no search: the result is the single zstate of all
  items \<open>0, \<dots>, nsnps - 1\<close> and the scorer is never called; for five items it is
  \<open>[[0,1,2,3,4]]\<close>.
\<close>

theorem create_covariate:
  "create score nsnps cmax target True
     = \<lparr>result = Returned Covariate [[0..nsnps - 1]], calls = 0\<rparr>
   \<and> create score 5 cmax target True
     = \<lparr>result = Returned Covariate [[0, 1, 2, 3, 4]], calls = 0\<rparr>"
  by (simp add: create_def upto_rec1)

subsection \<open>The stopping check\<close>



subsection \<open>Unfolding the loop\<close>

lemma iterate_done:
  "\<not> nrm < cmax \<Longrightarrow> iterate score nsnps cmax target nrm st
     = \<lparr>result = Returned NormReached (zstates st), calls = ncalls st\<rparr>"
  by (subst iterate.simps) simp

lemma iterate_continue:
  "nrm < cmax \<Longrightarrow> loop_body score nsnps target nrm st = Continue st' \<Longrightarrow>
   iterate score nsnps cmax target nrm st = iterate score nsnps cmax target (nrm + 1) st'"
  by (subst iterate.simps) simp

lemma iterate_break:
  "nrm < cmax \<Longrightarrow> loop_body score nsnps target nrm st = Break ek \<Longrightarrow>
   iterate score nsnps cmax target nrm st
     = \<lparr>result = Returned ek (zstates st), calls = ncalls st\<rparr>"
  by (subst iterate.simps) simp

lemma iterate_throw:
  "nrm < cmax \<Longrightarrow> loop_body score nsnps target nrm st = Throw e \<Longrightarrow>
   iterate score nsnps cmax target nrm st = \<lparr>result = Raised e, calls = ncalls st\<rparr>"
  by (subst iterate.simps) simp

lemma loop_body_empty_selection:
  "\<not> probsum st < (1 - target) * old_probsum st \<Longrightarrow>
   select (prob st) (probsum st) target = None \<Longrightarrow>
   loop_body score nsnps target nrm st = Break EmptySelection"
  by (simp add: loop_body_def)

lemma loop_body_append:
  "loop_body score nsnps target nrm st = Continue st' \<Longrightarrow>
   zstates st' = zstates st @ oldk st' \<and> ncalls st' = ncalls st + 1"
  by (auto simp: loop_body_def Let_def split: if_splits option.splits sum.splits)

lemma sum_list_take_le:
  fixes xs :: "real list"
  assumes "\<forall>x\<in>set xs. 0 \<le> x"
  shows "sum_list (take k xs) \<le> sum_list xs"
proof -
  have "sum_list xs = sum_list (take k xs) + sum_list (drop k xs)"
    by (metis append_take_drop_id sum_list.append)
  moreover have "0 \<le> sum_list (drop k xs)"
    using assms by (intro sum_list_nonneg) (meson in_set_dropD)
  ultimately show ?thesis by simp
qed

lemma set_sorted_scores: "set (sorted_scores p) = set p"
  using mset_sorted_scores [of p] by (metis set_mset_mset)

lemma select_None_nonneg:
  assumes "\<forall>x\<in>set p. 0 \<le> x" and "sum_list p \<le> psum * target"
  shows "select p psum target = None"
proof -
  have "\<not> psum * target < sum_list (take k (sorted_scores p))" for k
  proof -
    have "sum_list (take k (sorted_scores p)) \<le> sum_list (sorted_scores p)"
      using assms(1) by (intro sum_list_take_le) (simp add: set_sorted_scores)
    then show ?thesis using assms(2) by (simp add: sum_list_sorted_scores)
  qed
  then show ?thesis by (simp add: select_None_iff)
qed

lemma set_slice_last: "set (slice_last n xs) \<subseteq> set xs"
  by (auto simp: slice_last_def dest: in_set_dropD)



subsection \<open>The selection\<close>



subsection \<open>The empty selection\<close>

lemma iterate_empty_selection:
  assumes "nrm < cmax" "\<not> probsum st < (1 - target) * old_probsum st"
    and "select (prob st) (probsum st) target = None"
  shows "iterate score nsnps cmax target nrm st
     = \<lparr>result = Returned EmptySelection (zstates st), calls = ncalls st\<rparr>"
  using assms by (simp add: iterate_break loop_body_empty_selection)





subsection \<open>Levels 0 and 1\<close>

lemma length_singletons: "length (singletons nsnps) = nat nsnps"
  by (simp add: singletons_def)

lemma distinct_singletons: "distinct (singletons nsnps)"
  by (simp add: singletons_def distinct_map inj_on_def)

lemma singletons_nonpos: "nsnps \<le> 0 \<Longrightarrow> singletons nsnps = []"
  by (simp add: singletons_def)

lemma create_cmax_le_1:
  "cmax \<le> 1 \<Longrightarrow> create score nsnps cmax target False
     = \<lparr>result = Returned NormReached ([] # singletons nsnps), calls = 0\<rparr>"
  by (simp add: create_def Let_def)

lemma create_empty_posterior:
  "1 < cmax \<Longrightarrow> score ([] # singletons nsnps) = [] \<Longrightarrow>
   create score nsnps cmax target False = \<lparr>result = Raised IndexError, calls = 1\<rparr>"
  by (simp add: create_def Let_def)

lemma iterate_calls: "ncalls st \<le> calls (iterate score nsnps cmax target nrm st)"
proof (induction score nsnps cmax target nrm st rule: iterate.induct)
  case (1 score nsnps cmax target nrm st)
  show ?case
  proof (cases "nrm < cmax")
    case False
    then show ?thesis by (simp add: iterate_done)
  next
    case True
    show ?thesis
    proof (cases "loop_body score nsnps target nrm st")
      case (Continue st')
      from "1.IH" [OF True Continue]
      have "ncalls st' \<le> calls (iterate score nsnps cmax target (nrm + 1) st')" .
      moreover have "ncalls st' = ncalls st + 1"
        using loop_body_append [OF Continue] by simp
      ultimately show ?thesis
        using True Continue by (simp add: iterate_continue)
    next
      case (Break ek)
      then show ?thesis using True by (simp add: iterate_break)
    next
      case (Throw e)
      then show ?thesis using True by (simp add: iterate_throw)
    qed
  qed
qed

lemma iterate_prefix:
  "result (iterate score nsnps cmax target nrm st) = Returned ek zs \<Longrightarrow>
   prefix (zstates st) zs"
proof (induction score nsnps cmax target nrm st rule: iterate.induct)
  case (1 score nsnps cmax target nrm st)
  show ?case
  proof (cases "nrm < cmax")
    case False
    then show ?thesis using "1.prems" by (simp add: iterate_done)
  next
    case True
    show ?thesis
    proof (cases "loop_body score nsnps target nrm st")
      case (Continue st')
      have "result (iterate score nsnps cmax target (nrm + 1) st') = Returned ek zs"
        using "1.prems" True Continue by (simp add: iterate_continue)
      from "1.IH" [OF True Continue this] have "prefix (zstates st') zs" .
      moreover have "zstates st' = zstates st @ oldk st'"
        using loop_body_append [OF Continue] by simp
      ultimately show ?thesis by (metis append_prefixD)
    next
      case (Break ek')
      then show ?thesis using True "1.prems" by (simp add: iterate_break)
    next
      case (Throw e)
      then show ?thesis using True "1.prems" by (simp add: iterate_throw)
    qed
  qed
qed

lemma create_calls: "1 < cmax \<Longrightarrow> 1 \<le> calls (create score nsnps cmax target False)"
proof (cases "score ([] # singletons nsnps)")
  case Nil
  assume "1 < cmax"
  then show ?thesis using Nil by (simp add: create_empty_posterior)
next
  case (Cons p0 ps)
  assume "1 < cmax"
  from create_enters_loop [where score = score and nsnps = nsnps and cmax = cmax
      and target = target and ?p0.0 = p0 and ps = ps, OF this Cons]
  show ?thesis using iterate_calls [of _ score nsnps cmax target 1]
    by (metis loop_state.select_convs(6))
qed

lemma create_prefix:
  assumes "result (create score nsnps cmax target False) = Returned ek zs"
  shows "prefix ([] # singletons nsnps) zs"
proof (cases "1 < cmax")
  case False
  then show ?thesis using assms by (simp add: create_cmax_le_1)
next
  case True
  show ?thesis
  proof (cases "score ([] # singletons nsnps)")
    case Nil
    then show ?thesis using assms True by (simp add: create_empty_posterior)
  next
    case (Cons p0 ps)
    from assms create_enters_loop [where score = score and nsnps = nsnps and cmax = cmax
        and target = target and ?p0.0 = p0 and ps = ps, OF True Cons]
    have "prefix (zstates \<lparr>zstates = [] # singletons nsnps, oldk = singletons nsnps,
        prob = slice_last (length (singletons nsnps)) (p0 # ps),
        probsum = sum_list (slice_last (length (singletons nsnps)) (p0 # ps)),
        old_probsum = p0, ncalls = 1\<rparr>) zs"
      by (intro iterate_prefix) simp
    then show ?thesis by simp
  qed
qed

text \<open>
  C5. Without the covariate flag, for \<open>nsnps \<ge> 1\<close> and \<open>cmax \<ge> 1\<close>, every
  collection that create returns begins with the empty zstate followed by the
  \<open>nsnps\<close> distinct singletons \<open>[0], \<dots>, [nsnps - 1]\<close> in that order; with
  \<open>cmax = 1\<close> the result is exactly these zstates and the scorer is not called.
\<close>

theorem create_levels_0_1:
  assumes "1 \<le> nsnps" and "1 \<le> cmax"
  shows "(result (create score nsnps cmax target False) = Returned ek zs \<longrightarrow>
            prefix ([] # map (\<lambda>i. [i]) [0..nsnps - 1]) zs)
    \<and> length (map (\<lambda>i. [i]) [0..nsnps - 1]) = nat nsnps
    \<and> distinct (map (\<lambda>i. [i]) [0..nsnps - 1])
    \<and> (cmax = 1 \<longrightarrow> create score nsnps cmax target False
          = \<lparr>result = Returned NormReached ([] # map (\<lambda>i. [i]) [0..nsnps - 1]),
             calls = 0\<rparr>)"
  using create_prefix [of score nsnps cmax target ek zs]
    length_singletons [of nsnps] distinct_singletons [of nsnps]
    create_cmax_le_1 [of 1 score nsnps target]
  by (simp add: singletons_def)

theorem create_levels_0_1_witness:
  "result (create one_stub 2 3 (1/2) False) = Returned NormReached [[], [0], [1], [0, 1]]
   \<and> prefix [[], [0], [1]] [[], [0], [1], [0, 1]]
   \<and> create one_stub 2 1 (1/2) False
       = \<lparr>result = Returned NormReached [[], [0], [1]], calls = 0\<rparr>"
proof -
  have u: "[0..(1::int)] = [0, 1]" by code_simp
  have r: "result (create one_stub 2 3 (1/2) False) = Returned NormReached [[], [0], [1], [0, 1]]"
    by code_simp
  have "(1::int) \<le> 2" "(1::int) \<le> 3" "(1::int) \<le> 1" by simp_all
  from create_levels_0_1 [OF \<open>(1::int) \<le> 2\<close> \<open>(1::int) \<le> 3\<close>, of one_stub "1/2" NormReached
      "[[], [0], [1], [0, 1]]"] r
  have "prefix ([] # map (\<lambda>i. [i]) [0..(2::int) - 1]) [[], [0], [1], [0, 1]]" by blast
  moreover
  from create_levels_0_1 [OF \<open>(1::int) \<le> 2\<close> \<open>(1::int) \<le> 1\<close>, of one_stub "1/2"]
  have "create one_stub 2 1 (1/2) False
          = \<lparr>result = Returned NormReached ([] # map (\<lambda>i. [i]) [0..(2::int) - 1]),
             calls = 0\<rparr>" by blast
  ultimately show ?thesis using r by (simp add: u)
qed

subsection \<open>Configuration values and the target of one\<close>

text \<open>
  An invalid configuration, \<open>nsnps = -1\<close>, \<open>cmax = 0\<close> and \<open>target = 2\<close>: create
  returns the collection \<open>[[]]\<close> and raises nothing.
\<close>

theorem no_configuration_error_counterexample:
  "create one_stub (- 1) 0 2 False = \<lparr>result = Returned NormReached [[]], calls = 0\<rparr>"
  by code_simp

text \<open>
  C7 (amended). create checks neither \<open>nsnps\<close> nor \<open>cmax\<close> nor \<open>target\<close> and has no
  configuration error. With \<open>cmax < 1\<close>, whatever \<open>nsnps\<close> and \<open>target\<close> are, it
  returns level 0 followed by level 1 without calling the scorer; level 1 is empty for
  \<open>nsnps \<le> 0\<close>. With \<open>cmax > 1\<close> the scorer is called at least once, whatever
  \<open>nsnps\<close> and \<open>target\<close> are.
\<close>

theorem no_configuration_check:
  "(cmax < 1 \<longrightarrow> create score nsnps cmax target False
       = \<lparr>result = Returned NormReached ([] # singletons nsnps), calls = 0\<rparr>)
   \<and> (nsnps \<le> 0 \<longrightarrow> singletons nsnps = [])
   \<and> (1 < cmax \<longrightarrow> 1 \<le> calls (create score nsnps cmax target False))"
  using create_cmax_le_1 [of cmax score nsnps target] singletons_nonpos [of nsnps]
    create_calls [of cmax score nsnps target]
  by simp

theorem no_configuration_check_witness:
  "create one_stub (- 1) 0 2 False = \<lparr>result = Returned NormReached [[]], calls = 0\<rparr>
   \<and> singletons (- 1) = []
   \<and> 1 \<le> calls (create one_stub (- 1) 2 2 False)"
proof -
  note t = no_configuration_check [of 0 one_stub "- 1" 2]
  note t2 = no_configuration_check [of 2 one_stub "- 1" 2]
  have "(0::int) < 1" "(- 1::int) \<le> 0" "(1::int) < 2" by simp_all
  with t t2 have "create one_stub (- 1) 0 2 False
       = \<lparr>result = Returned NormReached ([] # singletons (- 1)), calls = 0\<rparr>"
    and s: "singletons (- 1) = []"
    and "1 \<le> calls (create one_stub (- 1) 2 2 False)"
    by blast+
  then show ?thesis by simp
qed

text \<open>
  C10. With \<open>target = 1\<close>, \<open>cmax > 1\<close>, \<open>nsnps \<ge> 1\<close> and a first answer of the
  scorer that has one nonnegative score per zstate, no prefix sum of the descending
  scores exceeds \<open>probsum\<close>, the stopping check does not fire, and create returns
  levels 0 and 1, \<open>1 + nsnps\<close> zstates, by the empty selection after one scorer call.
\<close>

theorem target_one_stops_at_level_1:
  assumes "1 < cmax" and "1 \<le> nsnps"
    and len: "length (score ([] # singletons nsnps)) = length ([] # singletons nsnps)"
    and nonneg: "\<forall>x\<in>set (score ([] # singletons nsnps)). 0 \<le> x"
  shows "create score nsnps cmax 1 False
           = \<lparr>result = Returned EmptySelection ([] # singletons nsnps), calls = 1\<rparr>
         \<and> length ([] # singletons nsnps) = nat (1 + nsnps)"
proof -
  obtain p0 ps where post: "score ([] # singletons nsnps) = p0 # ps"
    using len by (cases "score ([] # singletons nsnps)") auto
  let ?pr = "slice_last (length (singletons nsnps)) (p0 # ps)"
  let ?st = "\<lparr>zstates = [] # singletons nsnps, oldk = singletons nsnps,
        prob = ?pr, probsum = sum_list ?pr, old_probsum = p0, ncalls = 1\<rparr>"
  have pos: "\<forall>x\<in>set ?pr. 0 \<le> x"
    using nonneg set_slice_last [of "length (singletons nsnps)" "p0 # ps"]
    unfolding post by blast
  then have sum: "0 \<le> sum_list ?pr" by (intro sum_list_nonneg) blast
  have "create score nsnps cmax 1 False = iterate score nsnps cmax 1 1 ?st"
    using assms(1) post by (rule create_enters_loop)
  also have "\<dots> = \<lparr>result = Returned EmptySelection (zstates ?st), calls = ncalls ?st\<rparr>"
  proof (rule iterate_empty_selection)
    show "1 < cmax" by fact
    show "\<not> probsum ?st < (1 - 1) * old_probsum ?st" using sum by simp
    show "select (prob ?st) (probsum ?st) 1 = None"
      using pos by (intro select_None_nonneg) simp_all
  qed
  finally show ?thesis using assms(2) by (simp add: length_singletons)
qed

theorem target_one_stops_at_level_1_witness:
  "create one_stub 2 3 1 False
     = \<lparr>result = Returned EmptySelection [[], [0], [1]], calls = 1\<rparr>"
proof -
  have s: "singletons 2 = [[0], [1]]" by code_simp
  have "(1::int) < 3" "(1::int) \<le> 2" by simp_all
  moreover have "length (one_stub ([] # singletons 2)) = length ([] # singletons 2)"
    by (simp add: one_stub_def)
  moreover have "\<forall>x\<in>set (one_stub ([] # singletons 2)). 0 \<le> x"
    by (simp add: one_stub_def)
  ultimately have "create one_stub 2 3 1 False
           = \<lparr>result = Returned EmptySelection ([] # singletons 2), calls = 1\<rparr>
         \<and> length ([] # singletons 2) = nat (1 + 2)"
    by (rule target_one_stops_at_level_1)
  then show ?thesis by (simp add: s)
qed

subsection \<open>The expansion step\<close>

lemma set_candidates:
  "set (candidates nsnps l) = {insort item l | item. 0 \<le> item \<and> item < nsnps \<and> item \<notin> set l}"
  by (auto simp: candidates_def)

lemma set_emit_new: "set (emit_new seen cs) = set cs - set seen"
  by (induction cs arbitrary: seen) auto

lemma distinct_emit_new: "distinct (emit_new seen cs)"
  by (induction cs arbitrary: seen) (auto simp: set_emit_new)

lemma set_create_zstates:
  "set (create_zstates nsnps leadk) = (\<Union>l\<in>set leadk. set (candidates nsnps l))"
  by (simp add: create_zstates_def set_emit_new)

lemma distinct_create_zstates: "distinct (create_zstates nsnps leadk)"
  by (simp add: create_zstates_def distinct_emit_new)

lemma candidate_canonical:
  assumes "sorted_wrt (<) l" and "item \<notin> set l"
  shows "sorted_wrt (<) (insort item l)"
  using assms by (simp add: strict_sorted_iff sorted_insort distinct_insort)

lemma in_create_zstates:
  "z \<in> set (create_zstates nsnps leadk) \<longleftrightarrow>
     (\<exists>l item. l \<in> set leadk \<and> 0 \<le> item \<and> item < nsnps \<and> item \<notin> set l \<and> z = insort item l)"
  by (auto simp: set_create_zstates set_candidates)

lemma wf_create_zstates:
  assumes "wf_level nsnps m leadk"
  shows "wf_level nsnps (m + 1) (create_zstates nsnps leadk)"
  unfolding wf_level_def
proof
  fix z assume "z \<in> set (create_zstates nsnps leadk)"
  then obtain l item where l: "l \<in> set leadk" and item: "0 \<le> item" "item < nsnps"
    "item \<notin> set l" and z: "z = insort item l"
    by (auto simp: in_create_zstates)
  from assms l have wl: "sorted_wrt (<) l" "set l \<subseteq> {0..<nsnps}" "length l = m"
    by (auto simp: wf_level_def)
  show "sorted_wrt (<) z \<and> set z \<subseteq> {0..<nsnps} \<and> length z = m + 1"
    using wl item candidate_canonical [OF wl(1) item(3)]
    by (simp add: z set_insort_key)
qed

lemma sort_canonical: "wf_level nsnps k lv \<Longrightarrow> map sort lv = lv"
  by (intro map_idI) (simp add: wf_level_def strict_sorted_iff sorted_sort_id)

lemma distinct_as_sets:
  assumes "wf_level nsnps k lv" and "distinct lv"
  shows "distinct (map set lv)"
proof -
  have "inj_on set (set lv)"
  proof (rule inj_onI)
    fix x y assume "x \<in> set lv" "y \<in> set lv" "set x = set y"
    with assms(1) show "x = y"
      by (intro sorted_distinct_set_unique) (auto simp: wf_level_def strict_sorted_iff)
  qed
  with assms(2) show ?thesis by (simp add: distinct_map)
qed

lemma wf_level_bound:
  assumes "wf_level nsnps k lv" and "lv \<noteq> []" and "0 \<le> nsnps"
  shows "int k \<le> nsnps"
proof -
  from assms obtain z where z: "z \<in> set lv" by (cases lv) auto
  with assms(1) have d: "distinct z" and s: "set z \<subseteq> {0..<nsnps}" and l: "length z = k"
    by (auto simp: wf_level_def strict_sorted_iff)
  have "card (set z) \<le> card {0..<nsnps}" using s by (intro card_mono) simp_all
  then have "k \<le> nat nsnps" using d l by (simp add: distinct_card)
  then show ?thesis using assms(3) by linarith
qed

lemma expand_wf:
  assumes "wf_level nsnps m leadk" and "0 \<le> nsnps"
  shows "expand nsnps (int m + 1) leadk = Inr (create_zstates nsnps leadk)"
proof -
  have len: "list_all (\<lambda>l. int (length l) = int m + 1 - 1) leadk"
    using assms by (simp add: wf_level_def list_all_iff)
  have "0 \<le> int (length leadk) * (nsnps - (int m + 1) + 1) * (int m + 1)"
  proof (cases "leadk = []")
    case True
    then show ?thesis by simp
  next
    case False
    from wf_level_bound [OF assms(1) False assms(2)] have "0 \<le> nsnps - (int m + 1) + 1" by simp
    then show ?thesis by simp
  qed
  then have size: "\<not> int (length leadk) * (nsnps - (int m + 1) + 1) * (int m + 1) < 0"
    by simp
  show ?thesis
      using len size sort_canonical [OF wf_create_zstates [OF assms(1)]]
    by (simp add: expand_def Let_def)
qed

text \<open>
  The two expansions of the docstring of \<^verbatim>\<open>create\<close>, for four SNPs: the leaders
  \<open>[1]\<close> and \<open>[3]\<close> give five zstates of norm 2, the leaders \<open>[0,1]\<close> and
  \<open>[1,3]\<close> three zstates of norm 3, in the order the docstring lists them.
\<close>

lemma docstring_norm_2:
  "expand 4 2 [[1], [3]] = Inr [[0, 1], [1, 2], [1, 3], [0, 3], [2, 3]]"
  by code_simp

lemma docstring_norm_3:
  "expand 4 3 [[0, 1], [1, 3]] = Inr [[0, 1, 2], [0, 1, 3], [1, 2, 3]]"
  by code_simp

text \<open>
  C1. For a universe of \<open>nsnps \<ge> 0\<close> items and leaders that are strictly
  increasing lists of \<open>m\<close> items of \<open>[0, nsnps)\<close>, the expansion step (the helper and the sorting of its rows) returns
  rows whose sets are exactly the sets \<open>leader \<union> {item}\<close> with \<open>item\<close> in
  \<open>[0, nsnps)\<close> and not in the leader; no two rows are equal as sets, and every row is
  strictly increasing with \<open>m + 1\<close> items.
\<close>

theorem expansion_exact:
  assumes "0 \<le> nsnps"
    and "\<forall>l\<in>set leadk. sorted_wrt (<) l \<and> set l \<subseteq> {0..<nsnps} \<and> length l = m"
  shows "\<exists>newk. expand nsnps (int m + 1) leadk = Inr newk
     \<and> set (map set newk)
         = {insert item (set l) | l item. l \<in> set leadk \<and> item \<in> {0..<nsnps} \<and> item \<notin> set l}
     \<and> distinct (map set newk)
     \<and> (\<forall>z\<in>set newk. sorted_wrt (<) z \<and> length z = m + 1)"
proof -
  let ?newk = "create_zstates nsnps leadk"
  from assms(2) have wf: "wf_level nsnps m leadk" by (simp add: wf_level_def)
  have wf': "wf_level nsnps (m + 1) ?newk" by (rule wf_create_zstates [OF wf])
  have "set (map set ?newk)
      = {insert item (set l) | l item. l \<in> set leadk \<and> item \<in> {0..<nsnps} \<and> item \<notin> set l}"
    (is "?A = ?B")
  proof (rule set_eqI)
    fix s
    have "s \<in> ?A \<longleftrightarrow> (\<exists>z\<in>set ?newk. s = set z)" by auto
    also have "\<dots> \<longleftrightarrow> (\<exists>l item. l \<in> set leadk \<and> 0 \<le> item \<and> item < nsnps \<and> item \<notin> set l
        \<and> s = set (insort item l))"
      by (simp add: Bex_def in_create_zstates) blast
    also have "\<dots> \<longleftrightarrow> s \<in> ?B" by (auto simp: set_insort_key)
    finally show "s \<in> ?A \<longleftrightarrow> s \<in> ?B" .
  qed
  moreover have "distinct (map set ?newk)"
    by (rule distinct_as_sets [OF wf' distinct_create_zstates])
  moreover have "\<forall>z\<in>set ?newk. sorted_wrt (<) z \<and> length z = m + 1"
    using wf' by (simp add: wf_level_def)
  ultimately show ?thesis using expand_wf [OF wf assms(1)] by blast
qed

theorem expansion_exact_witness:
  "expand 4 2 [[1], [3]] = Inr [[0, 1], [1, 2], [1, 3], [0, 3], [2, 3]]
   \<and> distinct (map set [[0, 1], [1, 2], [1, 3], [0, 3], [2::int, 3]])
   \<and> set (map set [[0, 1], [1, 2], [1, 3], [0, 3], [2::int, 3]])
       = {insert item (set l) | l item. l \<in> set [[1], [3]] \<and> item \<in> {0..<4} \<and> item \<notin> set l}"
proof -
  let ?rows = "[[0, 1], [1, 2], [1, 3], [0, 3], [2::int, 3]]"
  have e: "expand 4 2 [[1], [3]] = Inr ?rows"
    by code_simp
  have h: "\<forall>l\<in>set [[1], [3::int]]. sorted_wrt (<) l \<and> set l \<subseteq> {0..<4} \<and> length l = 1"
    by simp
  have "(0::int) \<le> 4" by simp
  from expansion_exact [OF this h] obtain newk
    where n: "expand 4 (int 1 + 1) [[1], [3]] = Inr newk"
      and s: "set (map set newk)
         = {insert item (set l) | l item. l \<in> set [[1], [3]] \<and> item \<in> {0..<4} \<and> item \<notin> set l}"
      and d: "distinct (map set newk)"
    by blast
  from n e have "newk = ?rows" by simp
  with s d e show ?thesis by blast
qed

subsection \<open>The collection is append-only\<close>

declare trace.simps [simp del]

lemma trace_continue:
  "nrm < cmax \<Longrightarrow> loop_body score nsnps target nrm st = Continue st' \<Longrightarrow>
   trace score nsnps cmax target nrm st = st # trace score nsnps cmax target (nrm + 1) st'"
  by (subst trace.simps) simp

lemma trace_end:
  "\<not> nrm < cmax \<or> (\<forall>st'. loop_body score nsnps target nrm st \<noteq> Continue st') \<Longrightarrow>
   trace score nsnps cmax target nrm st = [st]"
  by (subst trace.simps) (auto split: step.splits)

lemma trace_not_Nil: "trace score nsnps cmax target nrm st \<noteq> []"
  by (subst trace.simps) simp

lemma hd_trace: "hd (trace score nsnps cmax target nrm st) = st"
  by (subst trace.simps) simp

lemma trace_nth:
  "i < length (trace score nsnps cmax target nrm st) \<Longrightarrow>
   zstates (trace score nsnps cmax target nrm st ! i)
     = zstates st @ concat (map oldk (take i (tl (trace score nsnps cmax target nrm st))))"
proof (induction score nsnps cmax target nrm st arbitrary: i rule: trace.induct)
  case (1 score nsnps cmax target nrm st)
  show ?case
  proof (cases "nrm < cmax \<and> (\<exists>st'. loop_body score nsnps target nrm st = Continue st')")
    case False
    then have "trace score nsnps cmax target nrm st = [st]"
      by (intro trace_end) blast
    then show ?thesis using "1.prems" by simp
  next
    case True
    then obtain st' where lt: "nrm < cmax"
      and c: "loop_body score nsnps target nrm st = Continue st'" by blast
    let ?rest = "trace score nsnps cmax target (nrm + 1) st'"
    have tr: "trace score nsnps cmax target nrm st = st # ?rest"
      by (rule trace_continue [OF lt c])
    have app: "zstates st' = zstates st @ oldk st'"
      using loop_body_append [OF c] by simp
    show ?thesis
    proof (cases i)
      case 0
      then show ?thesis by (simp add: tr)
    next
      case (Suc i')
      then have "i' < length ?rest" using "1.prems" by (simp add: tr)
      from "1.IH" [OF lt c this]
      have ih: "zstates (?rest ! i') = zstates st' @ concat (map oldk (take i' (tl ?rest)))" .
      have rest: "?rest = st' # tl ?rest"
        using trace_not_Nil [of score nsnps cmax target "nrm + 1" st']
          hd_trace [of score nsnps cmax target "nrm + 1" st']
        by (metis list.collapse)
      have "take (Suc i') ?rest = st' # take i' (tl ?rest)"
        by (subst rest) simp
      then show ?thesis
        by (simp add: tr Suc ih app)
    qed
  qed
qed

lemma iterate_last_trace:
  "result (iterate score nsnps cmax target nrm st) = Returned ek zs \<Longrightarrow>
   zs = zstates (last (trace score nsnps cmax target nrm st))"
proof (induction score nsnps cmax target nrm st rule: iterate.induct)
  case (1 score nsnps cmax target nrm st)
  show ?case
  proof (cases "nrm < cmax")
    case False
    then show ?thesis using "1.prems" by (simp add: iterate_done trace_end)
  next
    case True
    show ?thesis
    proof (cases "loop_body score nsnps target nrm st")
      case (Continue st')
      have "result (iterate score nsnps cmax target (nrm + 1) st') = Returned ek zs"
        using "1.prems" True Continue by (simp add: iterate_continue)
      from "1.IH" [OF True Continue this] show ?thesis
        by (simp add: trace_continue [OF True Continue] trace_not_Nil)
    next
      case (Break ek')
      then show ?thesis using True "1.prems" by (simp add: iterate_break trace_end)
    next
      case (Throw e)
      then show ?thesis using True "1.prems" by (simp add: iterate_throw)
    qed
  qed
qed

lemma iterate_levels:
  assumes "result (iterate score nsnps cmax target nrm st) = Returned ek zs"
  shows "zs = zstates st @ concat (map oldk (tl (trace score nsnps cmax target nrm st)))"
proof -
  let ?tr = "trace score nsnps cmax target nrm st"
  have ne: "?tr \<noteq> []" by (rule trace_not_Nil)
  then have l: "length ?tr - 1 < length ?tr" by simp
  have "zs = zstates (?tr ! (length ?tr - 1))"
    using iterate_last_trace [OF assms] ne by (simp add: last_conv_nth)
  also have "\<dots> = zstates st @ concat (map oldk (take (length ?tr - 1) (tl ?tr)))"
    by (rule trace_nth [OF l])
  also have "take (length ?tr - 1) (tl ?tr) = tl ?tr" by simp
  finally show ?thesis .
qed

text \<open>
  C8. The collection only grows by appending. An iteration that goes through appends
  the new level (the next \<open>oldk\<close>) to the collection and removes nothing. Along the
  states \<open>trace\<close> at the top of the iterations, the collection after \<open>i\<close> iterations
  is the starting collection followed by the \<open>i\<close> levels generated so far, in the
  order of their generation, so its length is the starting length plus the sizes of
  these levels, and an earlier collection is a prefix of every later one. What the loop
  returns is the collection of the last state, the starting collection followed by all
  the levels generated. What create returns is level 0, then level 1, then the levels
  generated by the loop, in this order.
\<close>

theorem collection_append_only:
  "(loop_body score nsnps target nrm st = Continue st' \<longrightarrow>
      zstates st' = zstates st @ oldk st')
   \<and> (\<forall>i. i < length (trace score nsnps cmax target nrm st) \<longrightarrow>
         zstates (trace score nsnps cmax target nrm st ! i)
           = zstates st
             @ concat (map oldk (take i (tl (trace score nsnps cmax target nrm st))))
         \<and> length (zstates (trace score nsnps cmax target nrm st ! i))
           = length (zstates st)
             + sum_list (map (\<lambda>s. length (oldk s))
                 (take i (tl (trace score nsnps cmax target nrm st)))))
   \<and> (\<forall>i j. i \<le> j \<and> j < length (trace score nsnps cmax target nrm st) \<longrightarrow>
         prefix (zstates (trace score nsnps cmax target nrm st ! i))
                (zstates (trace score nsnps cmax target nrm st ! j)))
   \<and> (result (iterate score nsnps cmax target nrm st) = Returned ek zs \<longrightarrow>
         zs = zstates (last (trace score nsnps cmax target nrm st))
         \<and> zs = zstates st
                @ concat (map oldk (tl (trace score nsnps cmax target nrm st))))
   \<and> (result (create score nsnps cmax target False) = Returned ek zs \<longrightarrow>
         prefix ([[]] @ singletons nsnps) zs)
   \<and> (cmax \<le> 1 \<and> result (create score nsnps cmax target False) = Returned ek zs \<longrightarrow>
         zs = concat [[[]], singletons nsnps])
   \<and> (1 < cmax \<and> score ([] # singletons nsnps) = p0 # ps
       \<and> st0 = \<lparr>zstates = [] # singletons nsnps, oldk = singletons nsnps,
                 prob = slice_last (length (singletons nsnps)) (p0 # ps),
                 probsum = sum_list (slice_last (length (singletons nsnps)) (p0 # ps)),
                 old_probsum = p0, ncalls = 1\<rparr>
       \<and> result (create score nsnps cmax target False) = Returned ek zs \<longrightarrow>
         zs = concat ([[]] # singletons nsnps
                      # map oldk (tl (trace score nsnps cmax target 1 st0))))"
proof -
  let ?tr = "trace score nsnps cmax target nrm st"
  have a: "zstates (?tr ! i) = zstates st @ concat (map oldk (take i (tl ?tr)))"
    if "i < length ?tr" for i
    using that by (rule trace_nth)
  have b: "length (zstates (?tr ! i))
      = length (zstates st) + sum_list (map (\<lambda>s. length (oldk s)) (take i (tl ?tr)))"
    if "i < length ?tr" for i
    by (simp add: a [OF that] length_concat comp_def)
  have c: "prefix (zstates (?tr ! i)) (zstates (?tr ! j))" if "i \<le> j \<and> j < length ?tr" for i j
  proof -
    from that have i: "i < length ?tr" and j: "j < length ?tr" by simp_all
    have "take i (take j (tl ?tr)) = take i (tl ?tr)"
      using that by (simp add: min_def)
    then have "take j (tl ?tr) = take i (tl ?tr) @ drop i (take j (tl ?tr))"
      by (metis append_take_drop_id)
    then have "zstates (?tr ! j)
        = zstates (?tr ! i) @ concat (map oldk (drop i (take j (tl ?tr))))"
      unfolding a [OF i] a [OF j] by (metis append.assoc concat_append map_append)
    then show ?thesis by (simp add: prefix_def)
  qed
  have d: "zs = concat [[[]], singletons nsnps]"
    if "cmax \<le> 1 \<and> result (create score nsnps cmax target False) = Returned ek zs"
  proof -
    from that have "create score nsnps cmax target False
        = \<lparr>result = Returned NormReached ([] # singletons nsnps), calls = 0\<rparr>"
      by (simp add: create_cmax_le_1)
    with that show ?thesis by simp
  qed
  have e: "zs = concat ([[]] # singletons nsnps
                      # map oldk (tl (trace score nsnps cmax target 1 st0)))"
    if h: "1 < cmax \<and> score ([] # singletons nsnps) = p0 # ps
       \<and> st0 = \<lparr>zstates = [] # singletons nsnps, oldk = singletons nsnps,
                 prob = slice_last (length (singletons nsnps)) (p0 # ps),
                 probsum = sum_list (slice_last (length (singletons nsnps)) (p0 # ps)),
                 old_probsum = p0, ncalls = 1\<rparr>
       \<and> result (create score nsnps cmax target False) = Returned ek zs"
  proof -
    from h have c: "1 < cmax" and p: "score ([] # singletons nsnps) = p0 # ps"
      and r: "result (create score nsnps cmax target False) = Returned ek zs"
      and st0: "st0 = \<lparr>zstates = [] # singletons nsnps, oldk = singletons nsnps,
                 prob = slice_last (length (singletons nsnps)) (p0 # ps),
                 probsum = sum_list (slice_last (length (singletons nsnps)) (p0 # ps)),
                 old_probsum = p0, ncalls = 1\<rparr>"
      by simp_all
    have "create score nsnps cmax target False = iterate score nsnps cmax target 1 st0"
      unfolding st0 using c p by (rule create_enters_loop)
    with r have "result (iterate score nsnps cmax target 1 st0) = Returned ek zs" by simp
    from iterate_levels [OF this]
    have "zs = zstates st0 @ concat (map oldk (tl (trace score nsnps cmax target 1 st0)))" .
    moreover have "zstates st0 = [] # singletons nsnps" by (simp add: st0)
    ultimately show ?thesis by simp
  qed
  have f: "zs = zstates (last ?tr) \<and> zs = zstates st @ concat (map oldk (tl ?tr))"
    if "result (iterate score nsnps cmax target nrm st) = Returned ek zs"
    using iterate_last_trace [OF that] iterate_levels [OF that] by simp
  have g: "loop_body score nsnps target nrm st = Continue st' \<longrightarrow>
      zstates st' = zstates st @ oldk st'"
    using loop_body_append [of score nsnps target nrm st st'] by simp
  have p: "result (create score nsnps cmax target False) = Returned ek zs \<longrightarrow>
      prefix ([[]] @ singletons nsnps) zs"
    using create_prefix [of score nsnps cmax target ek zs] by simp
  from a b have ab: "\<forall>i. i < length ?tr \<longrightarrow>
         zstates (?tr ! i) = zstates st @ concat (map oldk (take i (tl ?tr)))
         \<and> length (zstates (?tr ! i))
           = length (zstates st) + sum_list (map (\<lambda>s. length (oldk s)) (take i (tl ?tr)))"
    by simp
  from c have c': "\<forall>i j. i \<le> j \<and> j < length ?tr \<longrightarrow>
      prefix (zstates (?tr ! i)) (zstates (?tr ! j))" by simp
  show ?thesis
    by (intro conjI g ab c' p) ((rule impI, erule d e f)+)
qed

theorem collection_append_only_witness:
  "zstates \<lparr>zstates = [[], [0], [1], [0, 1]], oldk = [[0, 1]], prob = [1], probsum = 1,
             old_probsum = 2, ncalls = 2\<rparr>
     = zstates \<lparr>zstates = [[], [0], [1]], oldk = [[0], [1]], prob = [1, 1], probsum = 2,
                old_probsum = 1, ncalls = 1\<rparr> @ [[0, 1]]
   \<and> length (zstates (trace one_stub 2 3 (1/2) 1
        \<lparr>zstates = [[], [0], [1]], oldk = [[0], [1]], prob = [1, 1], probsum = 2,
         old_probsum = 1, ncalls = 1\<rparr> ! 1)) = 3 + 1
   \<and> prefix
        (zstates (trace one_stub 2 3 (1/2) 1
           \<lparr>zstates = [[], [0], [1]], oldk = [[0], [1]], prob = [1, 1], probsum = 2,
            old_probsum = 1, ncalls = 1\<rparr> ! 0))
        (zstates (trace one_stub 2 3 (1/2) 1
           \<lparr>zstates = [[], [0], [1]], oldk = [[0], [1]], prob = [1, 1], probsum = 2,
            old_probsum = 1, ncalls = 1\<rparr> ! 2))
   \<and> result (iterate one_stub 2 3 (1/2) 1
        \<lparr>zstates = [[], [0], [1]], oldk = [[0], [1]], prob = [1, 1], probsum = 2,
         old_probsum = 1, ncalls = 1\<rparr>) = Returned NormReached [[], [0], [1], [0, 1]]
   \<and> prefix ([[]] @ singletons 2) [[], [0], [1], [0, 1]]
   \<and> [[], [0], [1], [0, 1]]
       = concat ([[]] # singletons 2 # map oldk (tl (trace one_stub 2 3 (1/2) 1
           \<lparr>zstates = [[], [0], [1]], oldk = [[0], [1]], prob = [1, 1], probsum = 2,
            old_probsum = 1, ncalls = 1\<rparr>)))"
proof -
  let ?st1 = "\<lparr>zstates = [[], [0], [1]], oldk = [[0], [1]], prob = [1, 1], probsum = 2,
         old_probsum = 1, ncalls = 1\<rparr>"
  let ?st2 = "\<lparr>zstates = [[], [0], [1], [0, 1]], oldk = [[0, 1]], prob = [1], probsum = 1,
             old_probsum = 2, ncalls = 2\<rparr>"
  let ?st3 = "\<lparr>zstates = [[], [0], [1], [0, 1]], oldk = [], prob = [1, 1, 1, 1],
             probsum = 4, old_probsum = 1, ncalls = 3\<rparr>"
  let ?tr = "trace one_stub 2 3 (1/2) 1 ?st1"
  let ?zs = "[[], [0], [1], [0::int, 1]]"
  have tr: "?tr = [?st1, ?st2, ?st3]" by code_simp
  have h1: "loop_body one_stub 2 (1/2) 1 ?st1 = Continue ?st2" by code_simp
  have h2: "result (iterate one_stub 2 3 (1/2) 1 ?st1) = Returned NormReached ?zs"
    by code_simp
  have h3: "result (create one_stub 2 3 (1/2) False) = Returned NormReached ?zs"
    by code_simp
  have h4: "(1::nat) < length ?tr" "(0::nat) \<le> 2 \<and> 2 < length ?tr"
    unfolding tr by simp_all
  note t = collection_append_only [where score = one_stub and nsnps = 2 and target = "1/2"
      and nrm = 1 and st = ?st1 and st' = ?st2 and cmax = 3 and ek = NormReached and zs = ?zs
      and ?p0.0 = 1 and ps = "[1, 1]" and ?st0.0 = ?st1]
  from t h1 have c1: "zstates ?st2 = zstates ?st1 @ oldk ?st2" by blast
  from t h4(1) have c2: "length (zstates (?tr ! 1))
      = length (zstates ?st1) + sum_list (map (\<lambda>s. length (oldk s)) (take 1 (tl ?tr)))"
    by blast
  from t h4(2) have c3: "prefix (zstates (?tr ! 0)) (zstates (?tr ! 2))" by blast
  from t h3 have c5: "prefix ([[]] @ singletons 2) ?zs" by blast
  have "sum_list (map (\<lambda>s. length (oldk s)) (take 1 (tl ?tr))) = 1"
    unfolding tr by simp
  with c2 have c2': "length (zstates (?tr ! 1)) = 3 + 1" by simp
  from c1 have c1': "zstates ?st2 = zstates ?st1 @ [[0, 1]]" by simp
  have s2: "singletons 2 = [[0], [1]]" by code_simp
  have h5: "(1::int) < 3 \<and> one_stub ([] # singletons 2) = 1 # [1, 1]
       \<and> ?st1 = \<lparr>zstates = [] # singletons 2, oldk = singletons 2,
                 prob = slice_last (length (singletons 2)) (1 # [1, 1]),
                 probsum = sum_list (slice_last (length (singletons 2)) (1 # [1, 1])),
                 old_probsum = 1, ncalls = 1\<rparr>"
    by (simp add: s2 one_stub_def slice_last_def)
  from t h5 h3 have c6: "?zs = concat ([[]] # singletons 2 # map oldk (tl ?tr))" by blast
  show ?thesis using c1' c2' c3 h2 c5 c6 by blast
qed

subsection \<open>Leader extraction within and beyond the last level\<close>


lemma leaders_Inr:
  "leaders ok sel = Inr leadk \<Longrightarrow>
   set leadk \<subseteq> set ok \<and> length leadk = length sel \<and> set sel \<subseteq> {..<length ok}"
  by (auto simp: leaders_def list_all_iff split: if_splits)

























end
